theory Spec2Isabelle
  imports Main "HOL-Library.Word"
begin

section \<open>The \<open>resize\<close> postprocessor of the accuracy checker\<close>

text \<open>
  A shallow embedding of \<^verbatim>\<open>Resize.process_image\<close>
  (\<^verbatim>\<open>accuracy_checker/postprocessor/resize.py\<close>): the two single-dispatch
  functions \<^verbatim>\<open>resize\<close> and \<^verbatim>\<open>set_sizes\<close> and the two passes over the
  prediction and annotation collections.

  Representation objects are mutated in place by the source, so they live in a store indexed
  by object identity; the collections hold identities (or \<^verbatim>\<open>None\<close>). An exception leaves
  the store as it was when it was raised, so every effectful function returns the exception
  (if any) together with the store.
\<close>

subsection \<open>Exceptions\<close>

datatype error = IndexError | ValueError | TypeError

subsection \<open>Arrays\<close>

text \<open>
  A numpy array is its shape and its elements in row-major order. An element is either a
  byte (dtype \<^verbatim>\<open>uint8\<close>) or a value of some other dtype, which stays abstract.
\<close>

datatype 'a scalar = Raw 'a | UInt8 "8 word"

record 'a ndarray =
  shape :: "nat list"
  data :: "'a list"

text \<open>\<^verbatim>\<open>t[i]\<close> on a tuple: \<^verbatim>\<open>IndexError\<close> out of range.\<close>

definition index :: "'a list \<Rightarrow> nat \<Rightarrow> error + 'a" where
  "index t i = (if i < length t then Inr (t ! i) else Inl IndexError)"

text \<open>\<^verbatim>\<open>height, width = t\<close>: \<^verbatim>\<open>ValueError\<close> unless \<open>t\<close> has exactly two items.\<close>

fun unpack2 :: "'a list \<Rightarrow> error + ('a \<times> 'a)" where
  "unpack2 [h, w] = Inr (h, w)"
| "unpack2 _ = Inl ValueError"

text \<open>Iterating an array yields its slices along the first axis; a 0-d array cannot be
  iterated.\<close>

fun chunks :: "nat \<Rightarrow> nat \<Rightarrow> 'a list \<Rightarrow> 'a list list" where
  "chunks 0 k xs = []"
| "chunks (Suc n) k xs = take k xs # chunks n k (drop k xs)"

definition np_iter :: "'a ndarray \<Rightarrow> error + 'a ndarray list" where
  "np_iter arr =
     (case shape arr of
        [] \<Rightarrow> Inl TypeError
      | n # sh \<Rightarrow> Inr (map (\<lambda>c. \<lparr>shape = sh, data = c\<rparr>) (chunks n (prod_list sh) (data arr))))"

text \<open>\<^verbatim>\<open>np.array(list_of_arrays)\<close>: the arrays are stacked along a new first axis; the empty
  list gives an array of shape \<open>(0,)\<close>; arrays of different shapes are refused.\<close>

definition np_array :: "'a ndarray list \<Rightarrow> error + 'a ndarray" where
  "np_array ms =
     (case ms of
        [] \<Rightarrow> Inr \<lparr>shape = [0], data = []\<rparr>
      | m # _ \<Rightarrow>
          if list_all (\<lambda>x. shape x = shape m) ms
          then Inr \<lparr>shape = length ms # shape m, data = concat (map data ms)\<rparr>
          else Inl ValueError)"

text \<open>\<^verbatim>\<open>arr.astype(np.uint8)\<close>: same shape, every element cast to a byte. The cast of a
  value of another dtype is the library's.\<close>

definition astype_uint8 :: "('a \<Rightarrow> 8 word) \<Rightarrow> 'a scalar ndarray \<Rightarrow> 8 word ndarray" where
  "astype_uint8 cast arr =
     \<lparr>shape = shape arr,
      data = map (\<lambda>x. case x of Raw r \<Rightarrow> cast r | UInt8 b \<Rightarrow> b) (data arr)\<rparr>"

definition of_bytes :: "8 word ndarray \<Rightarrow> 'a scalar ndarray" where
  "of_bytes arr = \<lparr>shape = shape arr, data = map UInt8 (data arr)\<rparr>"

subsection \<open>External primitives\<close>

text \<open>
  The image library and the mask resampler are not part of the module; they are parameters of
  the model. \<open>Image_fromarray\<close>, \<open>Image_resize\<close> and \<open>np_array_of_image\<close> stand for
  \<^verbatim>\<open>Image.fromarray\<close>, \<^verbatim>\<open>Image.resize\<close> and \<^verbatim>\<open>np.array\<close> on an image;
  \<open>Image_size\<close> (width, height) and \<open>Image_bands\<close> observe an image; \<open>segm_resize\<close> is
  \<^verbatim>\<open>ResizeSegmentationMask.segm_resize(mask, width, height)\<close>.
\<close>

datatype resample = NEAREST | BOX | BILINEAR | HAMMING | BICUBIC | LANCZOS

record ('a, 'img) prims =
  cast_uint8 :: "'a \<Rightarrow> 8 word"
  Image_fromarray :: "8 word ndarray \<Rightarrow> error + 'img"
  Image_resize :: "'img \<Rightarrow> int \<times> int \<Rightarrow> resample \<Rightarrow> error + 'img"
  np_array_of_image :: "'img \<Rightarrow> 8 word ndarray"
  Image_size :: "'img \<Rightarrow> nat \<times> nat"
  Image_bands :: "'img \<Rightarrow> nat"
  segm_resize :: "'a scalar ndarray \<Rightarrow> int \<Rightarrow> int \<Rightarrow> error + 'a scalar ndarray"

subsection \<open>Entries and configuration\<close>

text \<open>
  The class an entry is dispatched on: the ten representation classes the module registers,
  or any other class. \<open>payload\<close> is the attribute \<^verbatim>\<open>value\<close> of a dense-value entry and
  the attribute \<^verbatim>\<open>mask\<close> of a segmentation entry.
\<close>

datatype kind =
    StyleTransferAnnotation | StyleTransferPrediction
  | SuperResolutionAnnotation | SuperResolutionPrediction
  | ImageProcessingAnnotation | ImageProcessingPrediction
  | ImageInpaintingAnnotation | ImageInpaintingPrediction
  | SegmentationPrediction | SegmentationAnnotation
  | OtherRepresentation

record 'a entry =
  kind :: kind
  payload :: "'a scalar ndarray"

text \<open>Modelled from the spec: \<^verbatim>\<open>ApplyToOption\<close> is imported from
  \<^verbatim>\<open>postprocessor.postprocessor\<close>, which is not among the sources; the spec gives
  \<^verbatim>\<open>apply_to\<close> the values PREDICTION, ANNOTATION, ALL and unset. (\<open>ALL\<close> is taken by
  the syntax of HOL, hence the prime.)\<close>

datatype ApplyToOption = ANNOTATION | PREDICTION | ALL'

record config =
  dst_height :: "int option"
  dst_width :: "int option"
  image_size :: "int list"
  deprocess_predictions :: bool
  apply_to :: "ApplyToOption option"

text \<open>The declared parameters: \<^verbatim>\<open>dst_height\<close> and \<^verbatim>\<open>dst_width\<close> are optional integers
  with \<^verbatim>\<open>min_value=1\<close>.\<close>

definition valid_config :: "config \<Rightarrow> bool" where
  "valid_config cfg \<longleftrightarrow>
     (case dst_height cfg of None \<Rightarrow> True | Some h \<Rightarrow> 1 \<le> h) \<and>
     (case dst_width cfg of None \<Rightarrow> True | Some w \<Rightarrow> 1 \<le> w)"

subsection \<open>\<open>set_sizes\<close>\<close>

text \<open>\<^verbatim>\<open>x if x else y\<close> for an optional integer \<open>x\<close>: \<^verbatim>\<open>None\<close> and \<open>0\<close> are false, and
  \<open>y\<close> is evaluated only then. The three implementations of \<^verbatim>\<open>set_sizes\<close> follow (lines
  106-111, 113-119 and 121-128 of the source); each returns a tuple, which the caller
  unpacks.\<close>

definition if_else :: "int option \<Rightarrow> (error + int) \<Rightarrow> error + int" where
  "if_else x y = (case x of None \<Rightarrow> y | Some v \<Rightarrow> if v \<noteq> 0 then Inr v else y)"

definition set_sizes_default :: "config \<Rightarrow> error + int list" where
  "set_sizes_default cfg =
     (case if_else (dst_height cfg) (index (image_size cfg) 0) of
        Inl e \<Rightarrow> Inl e
      | Inr height \<Rightarrow>
          (case if_else (dst_width cfg) (index (image_size cfg) 1) of
             Inl e \<Rightarrow> Inl e
           | Inr width \<Rightarrow> Inr [height, width]))"

definition set_sizes_super_resolution :: "config \<Rightarrow> 'a entry \<Rightarrow> error + int list" where
  "set_sizes_super_resolution cfg entry =
     (case if_else (dst_height cfg) (map_sum id int (index (shape (payload entry)) 0)) of
        Inl e \<Rightarrow> Inl e
      | Inr height \<Rightarrow>
          (case if_else (dst_width cfg) (map_sum id int (index (shape (payload entry)) 1)) of
             Inl e \<Rightarrow> Inl e
           | Inr width \<Rightarrow> Inr [height, width]))"

definition set_sizes_segmentation_prediction :: "config \<Rightarrow> error + int list" where
  "set_sizes_segmentation_prediction cfg =
     (if deprocess_predictions cfg then Inr (take 2 (image_size cfg))
      else
        (case if_else (dst_height cfg) (index (image_size cfg) 0) of
           Inl e \<Rightarrow> Inl e
         | Inr height \<Rightarrow>
             (case if_else (dst_width cfg) (index (image_size cfg) 1) of
                Inl e \<Rightarrow> Inl e
              | Inr width \<Rightarrow> Inr [height, width])))"

text \<open>The dispatch of \<^verbatim>\<open>set_sizes\<close>; \<^verbatim>\<open>None\<close> is an object of an unregistered class.\<close>

definition set_sizes :: "config \<Rightarrow> 'a entry option \<Rightarrow> error + int list" where
  "set_sizes cfg entry =
     (case entry of
        None \<Rightarrow> set_sizes_default cfg
      | Some e \<Rightarrow>
          (case kind e of
             SuperResolutionAnnotation \<Rightarrow> set_sizes_super_resolution cfg e
           | SuperResolutionPrediction \<Rightarrow> set_sizes_super_resolution cfg e
           | SegmentationPrediction \<Rightarrow> set_sizes_segmentation_prediction cfg
           | _ \<Rightarrow> set_sizes_default cfg))"

subsection \<open>\<open>resize\<close>\<close>

text \<open>The implementations of \<^verbatim>\<open>resize\<close> (lines 66-104 of the source). Each function returns
  the exception raised, if any, and the entry as the call leaves it: the dense-value
  implementation has already stored the cast value when the image library raises.\<close>

definition resize_dense ::
  "('a, 'img) prims \<Rightarrow> 'a entry \<Rightarrow> int \<Rightarrow> int \<Rightarrow> error option \<times> 'a entry" where
  "resize_dense P entry height width =
     (let bytes = astype_uint8 (cast_uint8 P) (payload entry);
          entry1 = entry\<lparr>payload := of_bytes bytes\<rparr>
      in case Image_fromarray P bytes of
           Inl e \<Rightarrow> (Some e, entry1)
         | Inr im \<Rightarrow>
             (case Image_resize P im (width, height) BICUBIC of
                Inl e \<Rightarrow> (Some e, entry1)
              | Inr im' \<Rightarrow> (None, entry1\<lparr>payload := of_bytes (np_array_of_image P im')\<rparr>)))"

text \<open>The loop over the class masks, with the list \<^verbatim>\<open>entry_mask\<close> built so far.\<close>

fun resize_class_masks ::
  "('a, 'img) prims \<Rightarrow> 'a scalar ndarray list \<Rightarrow> int \<Rightarrow> int \<Rightarrow> 'a scalar ndarray list
     \<Rightarrow> error + 'a scalar ndarray list" where
  "resize_class_masks P [] width height entry_mask = Inr entry_mask"
| "resize_class_masks P (class_mask # rest) width height entry_mask =
     (case segm_resize P class_mask width height of
        Inl e \<Rightarrow> Inl e
      | Inr resized_mask \<Rightarrow> resize_class_masks P rest width height (entry_mask @ [resized_mask]))"

definition resize_segmentation_prediction ::
  "('a, 'img) prims \<Rightarrow> 'a entry \<Rightarrow> int \<Rightarrow> int \<Rightarrow> error option \<times> 'a entry" where
  "resize_segmentation_prediction P entry height width =
     (if length (shape (payload entry)) = 2 then
        (case segm_resize P (payload entry) width height of
           Inl e \<Rightarrow> (Some e, entry)
         | Inr m \<Rightarrow> (None, entry\<lparr>payload := m\<rparr>))
      else
        (case np_iter (payload entry) of
           Inl e \<Rightarrow> (Some e, entry)
         | Inr class_masks \<Rightarrow>
             (case resize_class_masks P class_masks width height [] of
                Inl e \<Rightarrow> (Some e, entry)
              | Inr entry_mask \<Rightarrow>
                  (case np_array entry_mask of
                     Inl e \<Rightarrow> (Some e, entry)
                   | Inr m \<Rightarrow> (None, entry\<lparr>payload := m\<rparr>)))))"

definition resize_segmentation_annotation ::
  "('a, 'img) prims \<Rightarrow> 'a entry \<Rightarrow> int \<Rightarrow> int \<Rightarrow> error option \<times> 'a entry" where
  "resize_segmentation_annotation P entry height width =
     (case segm_resize P (payload entry) width height of
        Inl e \<Rightarrow> (Some e, entry)
      | Inr m \<Rightarrow> (None, entry\<lparr>payload := m\<rparr>))"

text \<open>The dispatch table of \<^verbatim>\<open>resize\<close>.\<close>

fun in_resize_table :: "kind \<Rightarrow> bool" where
  "in_resize_table OtherRepresentation = False"
| "in_resize_table _ = True"

definition resize_entry ::
  "('a, 'img) prims \<Rightarrow> 'a entry \<Rightarrow> int \<Rightarrow> int \<Rightarrow> error option \<times> 'a entry" where
  "resize_entry P entry height width =
     (case kind entry of
        SegmentationPrediction \<Rightarrow> resize_segmentation_prediction P entry height width
      | SegmentationAnnotation \<Rightarrow> resize_segmentation_annotation P entry height width
      | OtherRepresentation \<Rightarrow> (None, entry)
      | _ \<Rightarrow> resize_dense P entry height width)"

subsection \<open>The store and \<open>process_image\<close>\<close>

type_synonym 'a store = "nat \<Rightarrow> 'a entry"

text \<open>\<^verbatim>\<open>resize(x, height, width)\<close> on a reference; \<^verbatim>\<open>None\<close> falls to the default
  implementation and is returned as it is.\<close>

definition resize ::
  "('a, 'img) prims \<Rightarrow> nat option \<Rightarrow> int \<Rightarrow> int \<Rightarrow> 'a store \<Rightarrow> error option \<times> 'a store" where
  "resize P x height width s =
     (case x of
        None \<Rightarrow> (None, s)
      | Some a \<Rightarrow> (case resize_entry P (s a) height width of (r, e') \<Rightarrow> (r, s(a := e'))))"

text \<open>\<^verbatim>\<open>annotation or prediction\<close>.\<close>

definition or_ref :: "nat option \<Rightarrow> nat option \<Rightarrow> nat option" where
  "or_ref annotation prediction = (case annotation of None \<Rightarrow> prediction | Some a \<Rightarrow> Some a)"

text \<open>One iteration of either pass (lines 133-134, 137-138, 144-145): resolve the size from
  \<open>src\<close>, unpack it, resize \<open>target\<close>.\<close>

definition size_and_resize ::
  "('a, 'img) prims \<Rightarrow> config \<Rightarrow> nat option \<Rightarrow> nat option \<Rightarrow> 'a store
     \<Rightarrow> error option \<times> 'a store" where
  "size_and_resize P cfg src target s =
     (case set_sizes cfg (map_option s src) of
        Inl e \<Rightarrow> (Some e, s)
      | Inr t \<Rightarrow>
          (case unpack2 t of
             Inl e \<Rightarrow> (Some e, s)
           | Inr (height, width) \<Rightarrow> resize P target height width s))"

text \<open>The three loops: over \<^verbatim>\<open>zip(annotations, predictions)\<close> (lines 132-134), over
  \<^verbatim>\<open>predictions\<close> (lines 136-138) and over \<^verbatim>\<open>annotations\<close> (lines 141-145). An exception
  ends the loop.\<close>

fun paired_pass ::
  "('a, 'img) prims \<Rightarrow> config \<Rightarrow> (nat option \<times> nat option) list \<Rightarrow> 'a store
     \<Rightarrow> error option \<times> 'a store" where
  "paired_pass P cfg [] s = (None, s)"
| "paired_pass P cfg ((annotation, prediction) # rest) s =
     (case size_and_resize P cfg (or_ref annotation prediction) prediction s of
        (Some e, s') \<Rightarrow> (Some e, s')
      | (None, s') \<Rightarrow> paired_pass P cfg rest s')"

fun unpaired_pass ::
  "('a, 'img) prims \<Rightarrow> config \<Rightarrow> nat option list \<Rightarrow> 'a store \<Rightarrow> error option \<times> 'a store" where
  "unpaired_pass P cfg [] s = (None, s)"
| "unpaired_pass P cfg (prediction # rest) s =
     (case size_and_resize P cfg prediction prediction s of
        (Some e, s') \<Rightarrow> (Some e, s')
      | (None, s') \<Rightarrow> unpaired_pass P cfg rest s')"

fun annotation_pass ::
  "('a, 'img) prims \<Rightarrow> config \<Rightarrow> nat option list \<Rightarrow> 'a store \<Rightarrow> error option \<times> 'a store" where
  "annotation_pass P cfg [] s = (None, s)"
| "annotation_pass P cfg (None # rest) s = annotation_pass P cfg rest s"
| "annotation_pass P cfg (Some a # rest) s =
     (case size_and_resize P cfg (Some a) (Some a) s of
        (Some e, s') \<Rightarrow> (Some e, s')
      | (None, s') \<Rightarrow> annotation_pass P cfg rest s')"

text \<open>The two tests on \<^verbatim>\<open>apply_to\<close> (lines 130 and 140) and the body of
  \<^verbatim>\<open>process_image\<close>; the collections it returns are the ones it was given, so the result
  is the store.\<close>

definition prediction_gate :: "config \<Rightarrow> bool" where
  "prediction_gate cfg \<longleftrightarrow>
     (case apply_to cfg of None \<Rightarrow> True | Some a \<Rightarrow> a \<in> set [PREDICTION, ALL'])"

definition annotation_gate :: "config \<Rightarrow> bool" where
  "annotation_gate cfg \<longleftrightarrow>
     (case apply_to cfg of None \<Rightarrow> True | Some a \<Rightarrow> a \<in> set [ANNOTATION, ALL'])"

definition prediction_pass ::
  "('a, 'img) prims \<Rightarrow> config \<Rightarrow> nat option list \<Rightarrow> nat option list \<Rightarrow> 'a store
     \<Rightarrow> error option \<times> 'a store" where
  "prediction_pass P cfg annotations predictions s =
     (if annotations \<noteq> [] then paired_pass P cfg (zip annotations predictions) s
      else unpaired_pass P cfg predictions s)"

definition process_image ::
  "('a, 'img) prims \<Rightarrow> config \<Rightarrow> nat option list \<Rightarrow> nat option list \<Rightarrow> 'a store
     \<Rightarrow> error option \<times> 'a store" where
  "process_image P cfg annotations predictions s =
     (case (if prediction_gate cfg then prediction_pass P cfg annotations predictions s
            else (None, s)) of
        (Some e, s1) \<Rightarrow> (Some e, s1)
      | (None, s1) \<Rightarrow>
          (if annotation_gate cfg then annotation_pass P cfg annotations s1 else (None, s1)))"

subsection \<open>An instance of the primitives\<close>

text \<open>
  A small image library and a mask resampler on which the model can be run: images are
  8-bit, interleaved, and both resamplers pick the nearest source pixel. (The filter
  argument is accepted and ignored; nothing below depends on the interpolated values.)
\<close>

record image =
  im_size :: "nat \<times> nat"
  im_bands :: nat
  im_pixels :: "8 word list"

text \<open>Row-major \<open>H \<times> W \<times> C\<close> to \<open>h \<times> w \<times> C\<close>: output pixel \<open>(i, j)\<close> is source pixel
  \<open>(i * H div h, j * W div w)\<close>.\<close>

definition nearest :: "nat \<Rightarrow> nat \<Rightarrow> nat \<Rightarrow> nat \<Rightarrow> nat \<Rightarrow> 'a list \<Rightarrow> 'a list" where
  "nearest H W C h w xs =
     concat (map (\<lambda>i. concat (map (\<lambda>j. take C (drop (((i * H div h) * W + j * W div w) * C) xs))
                                   [0..<w]))
                 [0..<h])"

text \<open>As \<^verbatim>\<open>Image.fromarray\<close> on a \<^verbatim>\<open>uint8\<close> array of three dimensions: three channels are
  an RGB image, four an RGBA image, and any other array is refused with \<^verbatim>\<open>TypeError\<close>; an
  \<open>H \<times> W \<times> 1\<close> array in particular is not an image to the library.\<close>

definition sample_fromarray :: "8 word ndarray \<Rightarrow> error + image" where
  "sample_fromarray arr =
     (case shape arr of
        [H, W, C] \<Rightarrow>
          if C \<in> {3, 4} \<and> length (data arr) = H * W * C
          then Inr \<lparr>im_size = (W, H), im_bands = C, im_pixels = data arr\<rparr>
          else Inl TypeError
      | _ \<Rightarrow> Inl TypeError)"

definition sample_resize :: "image \<Rightarrow> int \<times> int \<Rightarrow> resample \<Rightarrow> error + image" where
  "sample_resize im target resample_filter =
     (case (im_size im, target) of
        ((W, H), (width, height)) \<Rightarrow>
          if width \<le> 0 \<or> height \<le> 0 \<or> W = 0 \<or> H = 0 then Inl ValueError
          else Inr \<lparr>im_size = (nat width, nat height), im_bands = im_bands im,
                    im_pixels = nearest H W (im_bands im) (nat height) (nat width) (im_pixels im)\<rparr>)"

definition sample_np_array :: "image \<Rightarrow> 8 word ndarray" where
  "sample_np_array im =
     \<lparr>shape = [snd (im_size im), fst (im_size im), im_bands im], data = im_pixels im\<rparr>"

text \<open>Modelled from the spec: \<^verbatim>\<open>ResizeSegmentationMask.segm_resize\<close> is not among the
  sources. The spec gives it the interface \<^verbatim>\<open>segm_resize(mask, target_width, target_height)\<close>
  on a 2D integer array, with a result of shape \<open>(target_height, target_width)\<close> whose every
  value is a value of the input. Anything else is refused here.\<close>

definition sample_segm_resize ::
  "'a scalar ndarray \<Rightarrow> int \<Rightarrow> int \<Rightarrow> error + 'a scalar ndarray" where
  "sample_segm_resize m width height =
     (case shape m of
        [H, W] \<Rightarrow>
          if width \<le> 0 \<or> height \<le> 0 \<or> W = 0 \<or> H = 0 \<or> length (data m) \<noteq> H * W
          then Inl ValueError
          else Inr \<lparr>shape = [nat height, nat width],
                    data = nearest H W 1 (nat height) (nat width) (data m)\<rparr>
      | _ \<Rightarrow> Inl ValueError)"

definition sample_prims :: "(int, image) prims" where
  "sample_prims =
     \<lparr>cast_uint8 = word_of_int,
      Image_fromarray = sample_fromarray,
      Image_resize = sample_resize,
      np_array_of_image = sample_np_array,
      Image_size = im_size,
      Image_bands = im_bands,
      segm_resize = sample_segm_resize\<rparr>"

subsection \<open>Notions used in the statements\<close>

text \<open>The objects a collection refers to, in order.\<close>

definition present :: "nat option list \<Rightarrow> nat list" where
  "present xs = map the (filter (\<lambda>x. x \<noteq> None) xs)"

text \<open>The entries the default rule of \<^verbatim>\<open>set_sizes\<close> covers: everything but the
  super-resolution classes and a segmentation prediction in deprocessing mode.\<close>

definition default_rule_applies :: "config \<Rightarrow> 'a entry option \<Rightarrow> bool" where
  "default_rule_applies cfg entry =
     (case entry of
        None \<Rightarrow> True
      | Some e \<Rightarrow>
          kind e \<noteq> SuperResolutionAnnotation \<and> kind e \<noteq> SuperResolutionPrediction \<and>
          (kind e = SegmentationPrediction \<longrightarrow> \<not> deprocess_predictions cfg))"

text \<open>The classes registered on the dense-value implementation of \<^verbatim>\<open>resize\<close>.\<close>

definition dense_value :: "kind \<Rightarrow> bool" where
  "dense_value k \<longleftrightarrow>
     k \<in> {StyleTransferAnnotation, StyleTransferPrediction,
          SuperResolutionAnnotation, SuperResolutionPrediction,
          ImageProcessingAnnotation, ImageProcessingPrediction,
          ImageInpaintingAnnotation, ImageInpaintingPrediction}"

text \<open>
  What the module relies on of the image library, at its interface: an image made from an
  \<open>H \<times> W \<times> C\<close> array has size \<open>(W, H)\<close> and \<open>C\<close> bands; \<^verbatim>\<open>resize((w, h), ...)\<close> gives an
  image of size \<open>(w, h)\<close> with the same bands; the array of an image with several bands has
  shape (height, width, bands).
\<close>

definition image_contract :: "('a, 'img) prims \<Rightarrow> bool" where
  "image_contract P \<longleftrightarrow>
     (\<forall>arr im H W C. Image_fromarray P arr = Inr im \<and> shape arr = [H, W, C] \<longrightarrow>
        Image_size P im = (W, H) \<and> Image_bands P im = C) \<and>
     (\<forall>im im' w h f. Image_resize P im (w, h) f = Inr im' \<and> 0 < w \<and> 0 < h \<longrightarrow>
        Image_size P im' = (nat w, nat h) \<and> Image_bands P im' = Image_bands P im) \<and>
     (\<forall>im. 1 < Image_bands P im \<longrightarrow>
        shape (np_array_of_image P im) =
          [snd (Image_size P im), fst (Image_size P im), Image_bands P im])"

subsection \<open>Sample data\<close>

definition sample_store :: "int store" where
  "sample_store =
     (\<lambda>_. \<lparr>kind = OtherRepresentation, payload = \<lparr>shape = [], data = []\<rparr>\<rparr>)
     (0 := \<lparr>kind = SegmentationAnnotation, payload = \<lparr>shape = [1, 1], data = [Raw 7]\<rparr>\<rparr>,
      1 := \<lparr>kind = SegmentationPrediction,
             payload = \<lparr>shape = [2, 1, 1], data = [Raw 1, Raw 2]\<rparr>\<rparr>,
      2 := \<lparr>kind = StyleTransferPrediction,
             payload = \<lparr>shape = [1, 1, 3], data = [Raw 1, Raw 2, Raw 257]\<rparr>\<rparr>,
      3 := \<lparr>kind = SuperResolutionPrediction,
             payload = \<lparr>shape = [2, 2, 3], data = map Raw [1, 2, 3, 4, 5, 6, 7, 8, 9, 10, 11, 12]\<rparr>\<rparr>,
      4 := \<lparr>kind = SegmentationAnnotation,
             payload = \<lparr>shape = [2, 1, 1], data = [Raw 1, Raw 2]\<rparr>\<rparr>,
      6 := \<lparr>kind = StyleTransferPrediction,
             payload = \<lparr>shape = [1, 1, 1], data = [Raw 300]\<rparr>\<rparr>)"

definition sample_config :: config where
  "sample_config =
     \<lparr>dst_height = None, dst_width = None, image_size = [3, 4, 3],
      deprocess_predictions = False, apply_to = None\<rparr>"

text \<open>Deprocessing mode with both overrides set, applied to predictions only.\<close>

definition deprocess_config :: config where
  "deprocess_config =
     sample_config\<lparr>dst_height := Some 2, dst_width := Some 2,
                   deprocess_predictions := True, apply_to := Some PREDICTION\<rparr>"

section \<open>Properties\<close>

subsection \<open>Arrays\<close>

lemma length_chunks: "length (chunks n k xs) = n"
  by (induction n arbitrary: xs) auto

lemma chunks_concat:
  "\<forall>d \<in> set ds. length d = k \<Longrightarrow> chunks (length ds) k (concat ds) = ds"
  by (induction ds) auto

lemma np_array_stack:
  assumes "rs \<noteq> []" "\<forall>r \<in> set rs. shape r = sh"
  shows "np_array rs = Inr \<lparr>shape = length rs # sh, data = concat (map data rs)\<rparr>"
  using assms by (cases rs) (auto simp: np_array_def list_all_iff)

lemma np_iter_stack:
  assumes "\<forall>r \<in> set rs. shape r = sh \<and> length (data r) = prod_list sh"
  shows "np_iter \<lparr>shape = length rs # sh, data = concat (map data rs)\<rparr> = Inr rs"
proof -
  have "chunks (length rs) (prod_list sh) (concat (map data rs)) = map data rs"
    using chunks_concat[of "map data rs" "prod_list sh"] assms by simp
  moreover have "map (\<lambda>c. \<lparr>shape = sh, data = c\<rparr>) (map data rs) = rs"
    using assms by (induction rs) auto
  ultimately show ?thesis by (simp add: np_iter_def)
qed

lemma unpack2_Inr: "unpack2 t = Inr (h, w) \<Longrightarrow> t = [h, w]"
  by (cases t rule: unpack2.cases) auto

subsection \<open>Collections\<close>

lemma present_simps [simp]:
  "present [] = []"
  "present (None # xs) = present xs"
  "present (Some a # xs) = a # present xs"
  by (simp_all add: present_def)

lemma set_present: "set (present xs) = {a. Some a \<in> set xs}"
  by (induction xs) (auto simp: present_def)

lemma present_append: "present (xs @ ys) = present xs @ present ys"
  by (simp add: present_def)

lemma distinct_present_take: "distinct (present xs) \<Longrightarrow> distinct (present (take n xs))"
proof -
  assume "distinct (present xs)"
  moreover have "present xs = present (take n xs) @ present (drop n xs)"
    by (metis append_take_drop_id present_append)
  ultimately show ?thesis by simp
qed

lemma set_present_take: "set (present (take n xs)) \<subseteq> set (present xs)"
  by (auto simp: set_present dest: in_set_takeD)

subsection \<open>\<open>set_sizes\<close>\<close>

lemma if_else_valid:
  "(case x of None \<Rightarrow> True | Some v \<Rightarrow> 1 \<le> v) \<Longrightarrow>
   if_else x y = (case x of None \<Rightarrow> y | Some v \<Rightarrow> Inr v)"
  by (cases x) (auto simp: if_else_def)

lemma set_sizes_default_body:
  assumes "valid_config cfg" "2 \<le> length (image_size cfg)"
  shows "set_sizes_default cfg =
     Inr [case dst_height cfg of None \<Rightarrow> image_size cfg ! 0 | Some h \<Rightarrow> h,
          case dst_width cfg of None \<Rightarrow> image_size cfg ! 1 | Some w \<Rightarrow> w]"
  using assms
  by (auto simp: set_sizes_default_def valid_config_def if_else_valid index_def
      split: option.splits)

subsection \<open>One call of \<open>resize\<close>\<close>

lemma resize_frame:
  "resize P x height width s = (r, s') \<Longrightarrow> Some b \<noteq> x \<Longrightarrow> s' b = s b"
  by (cases x) (auto simp: resize_def split: prod.splits)

lemma resize_at:
  "resize P (Some a) height width s = (r, s') \<Longrightarrow>
   resize_entry P (s a) height width = (r, s' a)"
  by (auto simp: resize_def split: prod.splits)

lemma size_and_resize_frame:
  "size_and_resize P cfg src target s = (r, s') \<Longrightarrow> Some b \<noteq> target \<Longrightarrow> s' b = s b"
  by (auto simp: size_and_resize_def split: sum.splits prod.splits dest: resize_frame)

lemma size_and_resize_ok:
  assumes "size_and_resize P cfg src (Some p) s = (None, s')"
  shows "\<exists>h w. set_sizes cfg (map_option s src) = Inr [h, w] \<and>
               resize_entry P (s p) h w = (None, s' p)"
  using assms
  by (auto simp: size_and_resize_def split: sum.splits prod.splits
      dest!: unpack2_Inr resize_at)

lemma resize_class_masks_acc:
  "resize_class_masks P ms width height acc = Inr out \<longleftrightarrow>
   (\<exists>rs. list_all2 (\<lambda>m r. segm_resize P m width height = Inr r) ms rs \<and> out = acc @ rs)"
proof (induction ms arbitrary: acc)
  case Nil
  then show ?case by auto
next
  case (Cons m ms)
  show ?case
  proof (cases "segm_resize P m width height")
    case (Inl e)
    then show ?thesis by (auto simp: list_all2_Cons1)
  next
    case (Inr r)
    then show ?thesis by (auto simp: Cons.IH list_all2_Cons1)
  qed
qed

subsection \<open>The passes\<close>

text \<open>An object that is not a target of the pass is left as it was, whatever the outcome.\<close>

lemma paired_pass_frame:
  "paired_pass P cfg ps s = (r, s') \<Longrightarrow> b \<notin> set (present (map snd ps)) \<Longrightarrow> s' b = s b"
proof (induction ps arbitrary: s)
  case Nil
  then show ?case by simp
next
  case (Cons ap ps)
  obtain a p where ap: "ap = (a, p)" by (cases ap)
  obtain r1 s1 where step: "size_and_resize P cfg (or_ref a p) p s = (r1, s1)"
    by (cases "size_and_resize P cfg (or_ref a p) p s")
  from Cons.prems(2) ap have "Some b \<noteq> p" and rest: "b \<notin> set (present (map snd ps))"
    by (cases p; auto)+
  with step have s1: "s1 b = s b" by (auto dest: size_and_resize_frame)
  show ?case
  proof (cases r1)
    case None
    with Cons.prems(1) ap step have "paired_pass P cfg ps s1 = (r, s')" by simp
    with Cons.IH rest s1 show ?thesis by simp
  next
    case (Some e)
    with Cons.prems(1) ap step have "s' = s1" by simp
    with s1 show ?thesis by simp
  qed
qed

text \<open>
  A pass that ends without an exception, over distinct targets, where an annotation that is
  itself a target is paired with itself: every target ends as one \<open>resize\<close> of what it was,
  to the size resolved on the initial store from its annotation, or from itself when there
  is none.
\<close>

lemma paired_pass_result:
  assumes "paired_pass P cfg ps s = (None, s')"
    and "distinct (present (map snd ps))"
    and "\<forall>(a', p') \<in> set ps. \<forall>x. a' = Some x \<and> x \<in> set (present (map snd ps)) \<longrightarrow> p' = Some x"
    and "i < length ps" and "ps ! i = (a, Some p)"
  shows "\<exists>h w. set_sizes cfg (map_option s (or_ref a (Some p))) = Inr [h, w] \<and>
               resize_entry P (s p) h w = (None, s' p)"
  using assms
proof (induction ps arbitrary: s i)
  case Nil
  then show ?case by simp
next
  case (Cons ap ps)
  obtain a0 p0 where ap: "ap = (a0, p0)" by (cases ap)
  obtain r1 s1 where step: "size_and_resize P cfg (or_ref a0 p0) p0 s = (r1, s1)"
    by (cases "size_and_resize P cfg (or_ref a0 p0) p0 s")
  from Cons.prems(1) ap step have r1: "r1 = None" and rest: "paired_pass P cfg ps s1 = (None, s')"
    by (cases r1; simp)+
  show ?case
  proof (cases i)
    case 0
    with Cons.prems(5) ap have eq: "a0 = a" "p0 = Some p" by simp_all
    from Cons.prems(2) ap eq have "p \<notin> set (present (map snd ps))" by simp
    with rest have "s' p = s1 p" by (rule paired_pass_frame)
    moreover from step r1 eq
    have "\<exists>h w. set_sizes cfg (map_option s (or_ref a (Some p))) = Inr [h, w] \<and>
                 resize_entry P (s p) h w = (None, s1 p)"
      by (auto dest: size_and_resize_ok)
    ultimately show ?thesis by simp
  next
    case (Suc j)
    with Cons.prems(4,5) have j: "j < length ps" "ps ! j = (a, Some p)" by simp_all
    from Cons.prems(2) ap have d: "distinct (present (map snd ps))"
      by (cases p0) simp_all
    have sub: "set (present (map snd ps)) \<subseteq> set (present (map snd (ap # ps)))"
      using ap by (cases p0) auto
    with Cons.prems(3)
    have al: "\<forall>(a', p') \<in> set ps. \<forall>x. a' = Some x \<and> x \<in> set (present (map snd ps))
                \<longrightarrow> p' = Some x"
      by fastforce
    from Cons.IH[OF rest d al j]
    obtain h w where hw: "set_sizes cfg (map_option s1 (or_ref a (Some p))) = Inr [h, w]"
      "resize_entry P (s1 p) h w = (None, s' p)" by blast
    from j have mem: "(a, Some p) \<in> set ps" by (metis nth_mem)
    then have pin: "p \<in> set (present (map snd ps))"
      by (force simp: set_present)
    with Cons.prems(2) ap have ne: "Some p \<noteq> p0" by (cases p0) auto
    with step have sp: "s1 p = s p" by (auto dest: size_and_resize_frame)
    have sa: "map_option s1 (or_ref a (Some p)) = map_option s (or_ref a (Some p))"
    proof (cases a)
      case None
      then show ?thesis using sp by (simp add: or_ref_def)
    next
      case (Some x)
      have "Some x \<noteq> p0"
      proof
        assume x: "Some x = p0"
        with ap have "x \<in> set (present (map snd (ap # ps)))" by auto
        with Cons.prems(3) mem Some have "Some p = Some x" by fastforce
        with ne x show False by simp
      qed
      with step have "s1 x = s x" by (auto dest: size_and_resize_frame)
      with Some show ?thesis by (simp add: or_ref_def)
    qed
    from hw sp sa show ?thesis by auto
  qed
qed

lemma unpaired_as_paired:
  "unpaired_pass P cfg ps s = paired_pass P cfg (map (Pair None) ps) s"
  by (induction ps arbitrary: s) (auto simp: or_ref_def split: prod.splits option.splits)

lemma annotation_as_paired:
  "annotation_pass P cfg as s =
   paired_pass P cfg (map (\<lambda>a. (a, a)) (filter (\<lambda>a. a \<noteq> None) as)) s"
  by (induction P cfg as s rule: annotation_pass.induct)
     (auto simp: or_ref_def split: prod.splits option.splits)

lemma prediction_pass_frame:
  assumes "prediction_pass P cfg annotations predictions s = (r, s')"
    and "b \<notin> set (present predictions)"
  shows "s' b = s b"
proof (cases "annotations = []")
  case True
  with assms(1) have "paired_pass P cfg (map (Pair None) predictions) s = (r, s')"
    by (simp add: prediction_pass_def unpaired_as_paired)
  moreover from assms(2) have "b \<notin> set (present (map snd (map (Pair None) predictions)))"
    by (simp add: comp_def)
  ultimately show ?thesis by (rule paired_pass_frame)
next
  case False
  with assms(1) have "paired_pass P cfg (zip annotations predictions) s = (r, s')"
    by (simp add: prediction_pass_def)
  moreover have "set (present (map snd (zip annotations predictions))) \<subseteq> set (present predictions)"
    by (simp add: map_snd_zip_take set_present_take)
  with assms(2) have "b \<notin> set (present (map snd (zip annotations predictions)))"
    by blast
  ultimately show ?thesis by (rule paired_pass_frame)
qed

section \<open>The claims\<close>

subsection \<open>Size resolution\<close>

text \<open>
  C5. For an entry under the default rule and a configuration whose overrides respect the
  declared minimum of 1, the resolved height is \<^verbatim>\<open>dst_height\<close> when it is set and the
  height of \<^verbatim>\<open>image_size\<close> otherwise, and the resolved width is \<^verbatim>\<open>dst_width\<close> when it is
  set and the width of \<^verbatim>\<open>image_size\<close> otherwise; each axis depends on its own override
  only.
\<close>

theorem set_sizes_default_rule:
  assumes "valid_config cfg" and "2 \<le> length (image_size cfg)"
    and "default_rule_applies cfg entry"
  shows "set_sizes cfg entry =
     Inr [case dst_height cfg of None \<Rightarrow> image_size cfg ! 0 | Some h \<Rightarrow> h,
          case dst_width cfg of None \<Rightarrow> image_size cfg ! 1 | Some w \<Rightarrow> w]"
proof (cases entry)
  case None
  then show ?thesis using assms by (simp add: set_sizes_def set_sizes_default_body)
next
  case (Some e)
  show ?thesis
  proof (cases "kind e = SegmentationPrediction")
    case True
    with Some assms(3) have "\<not> deprocess_predictions cfg"
      by (simp add: default_rule_applies_def)
    with True Some assms(1,2) show ?thesis
      by (auto simp: set_sizes_def set_sizes_segmentation_prediction_def valid_config_def
          if_else_valid index_def split: option.splits)
  next
    case False
    with Some assms(3) have "set_sizes cfg entry = set_sizes_default cfg"
      by (cases "kind e") (auto simp: set_sizes_def default_rule_applies_def)
    then show ?thesis using assms(1,2) by (simp add: set_sizes_default_body)
  qed
qed

text \<open>The height pinned to 100, the width left to the frame (3 by 4).\<close>

theorem set_sizes_default_rule_witness:
  "valid_config (sample_config\<lparr>dst_height := Some 100\<rparr>) \<and>
   2 \<le> length (image_size (sample_config\<lparr>dst_height := Some 100\<rparr>)) \<and>
   default_rule_applies (sample_config\<lparr>dst_height := Some 100\<rparr>) (Some (sample_store 2)) \<and>
   set_sizes (sample_config\<lparr>dst_height := Some 100\<rparr>) (Some (sample_store 2)) = Inr [100, 4]"
proof -
  let ?cfg = "sample_config\<lparr>dst_height := Some 100\<rparr>"
  have h: "valid_config ?cfg" "2 \<le> length (image_size ?cfg)"
    "default_rule_applies ?cfg (Some (sample_store 2))"
    by (simp_all add: valid_config_def sample_config_def default_rule_applies_def
        sample_store_def)
  from set_sizes_default_rule[OF h] h show ?thesis
    by (simp add: sample_config_def)
qed

text \<open>
  C3. For a super-resolution annotation or prediction (and overrides that respect the
  declared minimum of 1), each axis of the size \<^verbatim>\<open>set_sizes\<close> resolves is the override
  when it is set and the entry's own \<^verbatim>\<open>value.shape[0]\<close>, \<^verbatim>\<open>value.shape[1]\<close> otherwise, never
  \<^verbatim>\<open>image_size\<close>; with no override the resolved size is the entry's current spatial shape.
\<close>

theorem set_sizes_super_resolution_rule:
  assumes "valid_config cfg" and "2 \<le> length (shape (payload e))"
    and "kind e = SuperResolutionAnnotation \<or> kind e = SuperResolutionPrediction"
  shows "set_sizes cfg (Some e) =
     Inr [case dst_height cfg of None \<Rightarrow> int (shape (payload e) ! 0) | Some h \<Rightarrow> h,
          case dst_width cfg of None \<Rightarrow> int (shape (payload e) ! 1) | Some w \<Rightarrow> w]"
  using assms
  by (auto simp: set_sizes_def set_sizes_super_resolution_def valid_config_def
      if_else_valid index_def split: option.splits)

text \<open>No override, a 2 by 2 by 3 value, a 3 by 4 frame: the size resolved is 2 by 2.\<close>

theorem set_sizes_super_resolution_rule_witness:
  "valid_config sample_config \<and> 2 \<le> length (shape (payload (sample_store 3))) \<and>
   kind (sample_store 3) = SuperResolutionPrediction \<and>
   image_size sample_config = [3, 4, 3] \<and>
   set_sizes sample_config (Some (sample_store 3)) = Inr [2, 2]"
proof -
  have h: "valid_config sample_config" "2 \<le> length (shape (payload (sample_store 3)))"
    "kind (sample_store 3) = SuperResolutionAnnotation \<or>
     kind (sample_store 3) = SuperResolutionPrediction"
    by (simp_all add: valid_config_def sample_config_def sample_store_def)
  from set_sizes_super_resolution_rule[OF h] h show ?thesis
    by (simp add: sample_config_def sample_store_def)
qed

text \<open>
  C1, as stated, fails: a segmentation prediction processed in deprocessing mode next to an
  annotation is resized to the size resolved from the annotation. Here both overrides are 2
  and the frame is 3 by 4; the two class masks of the prediction end 2 by 2.
\<close>

theorem deprocess_overridden_by_annotation:
  "deprocess_predictions deprocess_config \<and>
   dst_height deprocess_config = Some 2 \<and> dst_width deprocess_config = Some 2 \<and>
   take 2 (image_size deprocess_config) = [3, 4] \<and>
   kind (sample_store 0) = SegmentationAnnotation \<and>
   kind (sample_store 1) = SegmentationPrediction \<and>
   fst (process_image sample_prims deprocess_config [Some 0] [Some 1] sample_store) = None \<and>
   shape (payload (snd (process_image sample_prims deprocess_config [Some 0] [Some 1]
                          sample_store) 1)) = [2, 2, 2]"
  by code_simp

text \<open>
  C1, amended. Whenever \<^verbatim>\<open>set_sizes\<close> is applied to a segmentation prediction itself and
  \<^verbatim>\<open>deprocess_predictions\<close> is set, the size resolved is the frame's (height, width), the
  first two items of \<^verbatim>\<open>image_size\<close>, whatever the overrides are.
\<close>

theorem set_sizes_deprocess:
  assumes "kind e = SegmentationPrediction" and "deprocess_predictions cfg"
    and "image_size cfg = h # w # rest"
  shows "set_sizes cfg (Some e) = Inr [h, w]"
  using assms by (simp add: set_sizes_def set_sizes_segmentation_prediction_def)

theorem set_sizes_deprocess_witness:
  "kind (sample_store 1) = SegmentationPrediction \<and> deprocess_predictions deprocess_config \<and>
   dst_height deprocess_config = Some 2 \<and> dst_width deprocess_config = Some 2 \<and>
   image_size deprocess_config = [3, 4, 3] \<and>
   set_sizes deprocess_config (Some (sample_store 1)) = Inr [3, 4]"
proof -
  have h: "kind (sample_store 1) = SegmentationPrediction"
    "deprocess_predictions deprocess_config" "image_size deprocess_config = 3 # 4 # [3]"
    by (simp_all add: deprocess_config_def sample_config_def sample_store_def)
  from set_sizes_deprocess[OF h] h show ?thesis
    by (simp add: deprocess_config_def sample_config_def)
qed

subsection \<open>Resizing one entry\<close>

text \<open>
  C9. \<^verbatim>\<open>resize\<close> on an object whose class is not in the dispatch table (\<^verbatim>\<open>None\<close>
  included), with any height and width, raises nothing and leaves the object, and every
  other, as it is.
\<close>

theorem resize_unregistered_identity:
  "(case x of None \<Rightarrow> True | Some a \<Rightarrow> \<not> in_resize_table (kind (s a))) \<Longrightarrow>
   resize P x height width s = (None, s)"
  by (cases x; cases "kind (s (the x))") (auto simp: resize_def resize_entry_def)

theorem resize_unregistered_identity_witness:
  "\<not> in_resize_table (kind (sample_store 5)) \<and>
   resize sample_prims (Some 5) 7 9 sample_store = (None, sample_store)"
proof -
  have h: "case Some 5 of None \<Rightarrow> True | Some a \<Rightarrow> \<not> in_resize_table (kind (sample_store a))"
    by (simp add: sample_store_def)
  from resize_unregistered_identity[OF h] h show ?thesis by simp
qed

text \<open>
  C2, as stated, fails for annotations: the implementation registered for
  \<^verbatim>\<open>SegmentationAnnotation\<close> hands the whole mask to \<^verbatim>\<open>segm_resize\<close> in one call. A
  2 by 1 by 1 mask of an annotation is refused by the resampler and stays as it was, while
  the same mask on a prediction becomes 2 by 2 by 2.
\<close>

theorem annotation_mask_not_split:
  "kind (sample_store 4) = SegmentationAnnotation \<and>
   shape (payload (sample_store 4)) = [2, 1, 1] \<and>
   resize_entry sample_prims (sample_store 4) 2 2 = (Some ValueError, sample_store 4) \<and>
   kind (sample_store 1) = SegmentationPrediction \<and>
   payload (sample_store 1) = payload (sample_store 4) \<and>
   fst (resize_entry sample_prims (sample_store 1) 2 2) = None \<and>
   shape (payload (snd (resize_entry sample_prims (sample_store 1) 2 2))) = [2, 2, 2]"
  by code_simp

text \<open>
  C2, amended. For a segmentation prediction whose mask is a 3D \<open>C \<times> H \<times> W\<close> array, when
  \<^verbatim>\<open>segm_resize\<close> maps every class mask to an array of shape (height, width): \<^verbatim>\<open>resize\<close>
  raises nothing and touches the mask only; class mask \<open>i\<close> of the new mask is
  \<^verbatim>\<open>segm_resize\<close> of class mask \<open>i\<close> of the old one, so the number and the order of the
  class masks are kept; and the new mask has shape \<open>C \<times> height \<times> width\<close> (for \<open>C = 0\<close>,
  \<^verbatim>\<open>np.array([])\<close> has shape \<open>(0,)\<close>).
\<close>

theorem resize_multichannel_prediction:
  assumes k: "kind e = SegmentationPrediction"
    and sh: "shape (payload e) = [C, H, W]"
    and it: "np_iter (payload e) = Inr class_masks"
    and contract: "\<forall>m \<in> set class_masks. \<exists>r. segm_resize P m width height = Inr r \<and>
           shape r = [nat height, nat width] \<and> length (data r) = nat height * nat width"
  shows "\<exists>e' rs. resize_entry P e height width = (None, e') \<and>
           e' = e\<lparr>payload := payload e'\<rparr> \<and>
           length class_masks = C \<and>
           list_all2 (\<lambda>m r. segm_resize P m width height = Inr r) class_masks rs \<and>
           np_iter (payload e') = Inr rs \<and>
           shape (payload e') = (if C = 0 then [0] else [C, nat height, nat width])"
proof -
  from it sh have len: "length class_masks = C"
    by (auto simp: np_iter_def length_chunks)
  from contract have "\<exists>rs. list_all2 (\<lambda>m r. segm_resize P m width height = Inr r \<and>
           shape r = [nat height, nat width] \<and> length (data r) = nat height * nat width)
           class_masks rs"
    by (induction class_masks) (auto simp: list_all2_Cons1)
  then obtain rs where rs: "list_all2 (\<lambda>m r. segm_resize P m width height = Inr r \<and>
           shape r = [nat height, nat width] \<and> length (data r) = nat height * nat width)
           class_masks rs" ..
  then have calls: "list_all2 (\<lambda>m r. segm_resize P m width height = Inr r) class_masks rs"
    by (rule list_all2_mono) simp
  from rs have shapes: "\<forall>r \<in> set rs. shape r = [nat height, nat width] \<and>
      length (data r) = prod_list [nat height, nat width]"
    by (auto simp: list_all2_conv_all_nth in_set_conv_nth)
  from rs len have lrs: "length rs = C" by (auto dest: list_all2_lengthD)
  from calls have loop: "resize_class_masks P class_masks width height [] = Inr rs"
    by (simp add: resize_class_masks_acc)
  show ?thesis
  proof (cases "C = 0")
    case True
    with lrs have "rs = []" by simp
    with loop k sh it True len calls show ?thesis
      by (simp add: resize_entry_def resize_segmentation_prediction_def np_array_def
          np_iter_def)
  next
    case False
    with lrs have ne: "rs \<noteq> []" by auto
    from shapes have "np_array rs = Inr \<lparr>shape = length rs # [nat height, nat width],
        data = concat (map data rs)\<rparr>"
      by (intro np_array_stack[OF ne]) simp
    moreover from shapes
    have "np_iter \<lparr>shape = length rs # [nat height, nat width], data = concat (map data rs)\<rparr>
        = Inr rs"
      by (rule np_iter_stack)
    ultimately show ?thesis using loop k sh it False len calls lrs
      by (simp add: resize_entry_def resize_segmentation_prediction_def)
  qed
qed

text \<open>The two class masks \<open>[[1]]\<close> and \<open>[[2]]\<close>, each resized to 2 by 3.\<close>

theorem resize_multichannel_prediction_witness:
  "kind (sample_store 1) = SegmentationPrediction \<and>
   shape (payload (sample_store 1)) = [2, 1, 1] \<and>
   np_iter (payload (sample_store 1)) =
     Inr [\<lparr>shape = [1, 1], data = [Raw 1]\<rparr>, \<lparr>shape = [1, 1], data = [Raw 2]\<rparr>] \<and>
   (\<exists>e' rs. resize_entry sample_prims (sample_store 1) 2 3 = (None, e') \<and>
      list_all2 (\<lambda>m r. segm_resize sample_prims m 3 2 = Inr r)
        [\<lparr>shape = [1, 1], data = [Raw 1]\<rparr>, \<lparr>shape = [1, 1], data = [Raw 2]\<rparr>] rs \<and>
      np_iter (payload e') = Inr rs \<and>
      shape (payload e') = [2, 2, 3])"
proof -
  let ?ms = "[\<lparr>shape = [1, 1], data = [Raw (1::int)]\<rparr>, \<lparr>shape = [1, 1], data = [Raw 2]\<rparr>]"
  have h1: "kind (sample_store 1) = SegmentationPrediction"
    and h2: "shape (payload (sample_store 1)) = [2, 1, 1]"
    by (simp_all add: sample_store_def)
  have h3: "np_iter (payload (sample_store 1)) = Inr ?ms"
    by code_simp
  have h4: "\<forall>m \<in> set ?ms. \<exists>r. segm_resize sample_prims m 3 2 = Inr r \<and>
      shape r = [nat 2, nat 3] \<and> length (data r) = nat 2 * nat 3"
  proof -
    have "segm_resize sample_prims \<lparr>shape = [1, 1], data = [Raw 1]\<rparr> 3 2 =
        Inr \<lparr>shape = [2, 3], data = [Raw 1, Raw 1, Raw 1, Raw 1, Raw 1, Raw 1]\<rparr>"
      by code_simp
    moreover
    have "segm_resize sample_prims \<lparr>shape = [1, 1], data = [Raw 2]\<rparr> 3 2 =
        Inr \<lparr>shape = [2, 3], data = [Raw 2, Raw 2, Raw 2, Raw 2, Raw 2, Raw 2]\<rparr>"
      by code_simp
    ultimately show ?thesis by simp
  qed
  from resize_multichannel_prediction[OF h1 h2 h3 h4] h1 h2 h3 show ?thesis
    by auto
qed

text \<open>
  C7, as stated, fails: the shape after \<^verbatim>\<open>resize\<close> is not (height, width, channels)
  whatever the value was. A 1 by 1 by 1 style-transfer value is cast to \<^verbatim>\<open>uint8\<close> (300
  becomes 44), \<^verbatim>\<open>Image.fromarray\<close> refuses the single-channel array, the exception leaves
  \<^verbatim>\<open>resize\<close>, and the value stays 1 by 1 by 1 for the target 2 by 3.
\<close>

theorem dense_single_channel_not_resized:
  "dense_value (kind (sample_store 6)) \<and>
   shape (payload (sample_store 6)) = [1, 1, 1] \<and>
   resize_entry sample_prims (sample_store 6) 2 3 =
     (Some TypeError,
      \<lparr>kind = StyleTransferPrediction, payload = \<lparr>shape = [1, 1, 1], data = [UInt8 44]\<rparr>\<rparr>) \<and>
   shape (payload (snd (resize_entry sample_prims (sample_store 6) 2 3))) \<noteq> [2, 3, 1]"
  by (simp add: dense_value_def sample_store_def resize_entry_def resize_dense_def
      astype_uint8_def of_bytes_def sample_prims_def sample_fromarray_def)

text \<open>
  C7, amended. \<^verbatim>\<open>resize\<close> on a dense-value entry first casts the value to \<^verbatim>\<open>uint8\<close> and
  stores it. When the call raises nothing, the cast array was given to \<^verbatim>\<open>Image.fromarray\<close>,
  the image was resized to \<open>(width, height)\<close> with the bicubic filter, and the array of the
  resized image is stored as the value, all its elements bytes, nothing else of the entry
  changed; for an \<open>H \<times> W \<times> C\<close> value of several channels, positive height and width and an
  image library that meets its interface, the stored array has shape (height, width, \<open>C\<close>).
  When the image library raises, the exception leaves \<^verbatim>\<open>resize\<close> and the entry keeps the
  cast value in its original shape, not resized.
\<close>

theorem resize_dense_value:
  assumes k: "dense_value (kind e)"
    and run: "resize_entry P e height width = (r, e')"
  shows "(r = None \<longrightarrow>
           (\<exists>im im'. Image_fromarray P (astype_uint8 (cast_uint8 P) (payload e)) = Inr im \<and>
              Image_resize P im (width, height) BICUBIC = Inr im' \<and>
              e' = e\<lparr>payload := of_bytes (np_array_of_image P im')\<rparr>) \<and>
           (\<forall>x \<in> set (data (payload e')). \<exists>b. x = UInt8 b) \<and>
           (image_contract P \<and> shape (payload e) = [H, W, C] \<and> 1 < C \<and>
            0 < height \<and> 0 < width \<longrightarrow>
              shape (payload e') = [nat height, nat width, C])) \<and>
         (r \<noteq> None \<longrightarrow>
           e' = e\<lparr>payload := of_bytes (astype_uint8 (cast_uint8 P) (payload e))\<rparr> \<and>
           shape (payload e') = shape (payload e) \<and>
           (Image_fromarray P (astype_uint8 (cast_uint8 P) (payload e)) = Inl (the r) \<or>
            (\<exists>im. Image_fromarray P (astype_uint8 (cast_uint8 P) (payload e)) = Inr im \<and>
               Image_resize P im (width, height) BICUBIC = Inl (the r))))"
proof -
  let ?bytes = "astype_uint8 (cast_uint8 P) (payload e)"
  from k have "resize_entry P e height width = resize_dense P e height width"
    by (cases "kind e") (auto simp: dense_value_def resize_entry_def)
  with run have rd: "resize_dense P e height width = (r, e')" by simp
  show ?thesis
  proof (cases r)
    case None
    with rd obtain im im' where
      fa: "Image_fromarray P ?bytes = Inr im" and
      rs: "Image_resize P im (width, height) BICUBIC = Inr im'" and
      e': "e' = e\<lparr>payload := of_bytes (np_array_of_image P im')\<rparr>"
      by (auto simp: resize_dense_def Let_def split: sum.splits)
    from e' have bytes: "\<forall>x \<in> set (data (payload e')). \<exists>b. x = UInt8 b"
      by (auto simp: of_bytes_def)
    have "shape (payload e') = [nat height, nat width, C]"
      if c: "image_contract P" and sh: "shape (payload e) = [H, W, C]" and C: "1 < C"
        and pos: "0 < height" "0 < width"
    proof -
      from sh have "shape ?bytes = [H, W, C]"
        by (simp add: astype_uint8_def)
      with c fa have "Image_bands P im = C" unfolding image_contract_def by blast
      moreover from c rs pos
      have "Image_size P im' = (nat width, nat height) \<and> Image_bands P im' = Image_bands P im"
        unfolding image_contract_def by blast
      ultimately have "Image_size P im' = (nat width, nat height)" "Image_bands P im' = C"
        by simp_all
      with c C have "shape (np_array_of_image P im') = [nat height, nat width, C]"
        unfolding image_contract_def by simp
      with e' show ?thesis by (simp add: of_bytes_def)
    qed
    with None fa rs e' bytes show ?thesis by blast
  next
    case (Some err)
    with rd have e': "e' = e\<lparr>payload := of_bytes ?bytes\<rparr>"
      and why: "Image_fromarray P ?bytes = Inl err \<or>
        (\<exists>im. Image_fromarray P ?bytes = Inr im \<and>
           Image_resize P im (width, height) BICUBIC = Inl err)"
      by (auto simp: resize_dense_def Let_def split: sum.splits)
    from e' have "shape (payload e') = shape (payload e)"
      by (simp add: of_bytes_def astype_uint8_def)
    with Some e' why show ?thesis by simp
  qed
qed

text \<open>A 1 by 1 by 3 style-transfer prediction is resized to height 2 and width 3; a 1 by 1 by
  1 one is refused by the library and keeps its shape, cast.\<close>

theorem resize_dense_value_witness:
  "image_contract sample_prims \<and> dense_value (kind (sample_store 2)) \<and>
   shape (payload (sample_store 2)) = [1, 1, 3] \<and>
   fst (resize_entry sample_prims (sample_store 2) 2 3) = None \<and>
   shape (payload (snd (resize_entry sample_prims (sample_store 2) 2 3))) = [2, 3, 3] \<and>
   list_all (\<lambda>x. \<exists>b. x = UInt8 b)
     (data (payload (snd (resize_entry sample_prims (sample_store 2) 2 3)))) \<and>
   dense_value (kind (sample_store 6)) \<and>
   fst (resize_entry sample_prims (sample_store 6) 2 3) = Some TypeError \<and>
   snd (resize_entry sample_prims (sample_store 6) 2 3) =
     (sample_store 6)\<lparr>payload :=
        of_bytes (astype_uint8 (cast_uint8 sample_prims) (payload (sample_store 6)))\<rparr> \<and>
   shape (payload (snd (resize_entry sample_prims (sample_store 6) 2 3))) = [1, 1, 1]"
proof -
  let ?r2 = "resize_entry sample_prims (sample_store 2) 2 3"
  let ?r6 = "resize_entry sample_prims (sample_store 6) 2 3"
  have c: "image_contract sample_prims"
    by (auto simp: image_contract_def sample_prims_def sample_fromarray_def sample_resize_def
        sample_np_array_def split: list.splits if_splits prod.splits)
  have k2: "dense_value (kind (sample_store 2))" and k6: "dense_value (kind (sample_store 6))"
    by (simp_all add: dense_value_def sample_store_def)
  have sh2: "shape (payload (sample_store 2)) = [1, 1, 3]"
    and sh6: "shape (payload (sample_store 6)) = [1, 1, 1]"
    by (simp_all add: sample_store_def)
  have f2: "fst ?r2 = None" by code_simp
  have f6: "fst ?r6 = Some TypeError" by code_simp
  have run2: "?r2 = (fst ?r2, snd ?r2)" and run6: "?r6 = (fst ?r6, snd ?r6)"
    by simp_all
  from resize_dense_value[OF k2 run2, of 1 1 3] f2 c sh2
  have ok: "shape (payload (snd ?r2)) = [2, 3, 3]"
    "list_all (\<lambda>x. \<exists>b. x = UInt8 b) (data (payload (snd ?r2)))"
    by (auto simp: list_all_iff)
  from resize_dense_value[OF k6 run6, of 1 1 1] f6 sh6
  have raised: "snd ?r6 = (sample_store 6)\<lparr>payload :=
        of_bytes (astype_uint8 (cast_uint8 sample_prims) (payload (sample_store 6)))\<rparr>"
    "shape (payload (snd ?r6)) = [1, 1, 1]"
    by auto
  from c k2 k6 sh2 f2 f6 ok raised show ?thesis by simp
qed

subsection \<open>The two passes\<close>

text \<open>
  C4. Take a prediction pass that raises nothing, over distinct prediction objects none of
  which is also an annotation. A prediction at an index the pass reaches ends as one
  \<^verbatim>\<open>resize\<close> of what it was, to a size \<^verbatim>\<open>set_sizes\<close> resolves: from the annotation at that
  index when the annotation collection is not empty and holds one there; from the
  prediction itself when the entry there is \<^verbatim>\<open>None\<close>; and from the prediction itself, at
  every index, when the annotation collection is empty.
\<close>

theorem prediction_pass_resolution:
  assumes run: "prediction_pass P cfg annotations predictions s = (None, s')"
    and dist: "distinct (present predictions)"
    and sep: "set (present annotations) \<inter> set (present predictions) = {}"
    and i: "i < length predictions" and p: "predictions ! i = Some p"
    and reached: "annotations = [] \<or> i < length annotations"
  shows "\<exists>h w. resize_entry P (s p) h w = (None, s' p) \<and>
           (annotations = [] \<longrightarrow> set_sizes cfg (Some (s p)) = Inr [h, w]) \<and>
           (annotations \<noteq> [] \<longrightarrow>
              (case annotations ! i of
                 Some a \<Rightarrow> set_sizes cfg (Some (s a)) = Inr [h, w]
               | None \<Rightarrow> set_sizes cfg (Some (s p)) = Inr [h, w]))"
proof (cases "annotations = []")
  case True
  let ?ps = "map (Pair None) predictions"
  from run True have r: "paired_pass P cfg ?ps s = (None, s')"
    by (simp add: prediction_pass_def unpaired_as_paired)
  from dist have d: "distinct (present (map snd ?ps))" by (simp add: comp_def)
  have al: "\<forall>(a', p') \<in> set ?ps. \<forall>x. a' = Some x \<and> x \<in> set (present (map snd ?ps))
              \<longrightarrow> p' = Some x"
    by auto
  from i p have n: "i < length ?ps" "?ps ! i = (None, Some p)" by simp_all
  from paired_pass_result[OF r d al n] True show ?thesis
    by (auto simp: or_ref_def)
next
  case False
  let ?ps = "zip annotations predictions"
  from run False have r: "paired_pass P cfg ?ps s = (None, s')"
    by (simp add: prediction_pass_def)
  from dist have d: "distinct (present (map snd ?ps))"
    by (simp add: map_snd_zip_take distinct_present_take)
  have "set (present (map fst ?ps)) \<subseteq> set (present annotations)"
    and "set (present (map snd ?ps)) \<subseteq> set (present predictions)"
    by (simp_all add: map_fst_zip_take map_snd_zip_take set_present_take)
  with sep have "set (present (map fst ?ps)) \<inter> set (present (map snd ?ps)) = {}"
    by blast
  then have al: "\<forall>(a', p') \<in> set ?ps. \<forall>x. a' = Some x \<and> x \<in> set (present (map snd ?ps))
              \<longrightarrow> p' = Some x"
    by (force simp: set_present)
  from i p reached False have n: "i < length ?ps" "?ps ! i = (annotations ! i, Some p)"
    by simp_all
  from paired_pass_result[OF r d al n] False show ?thesis
    by (cases "annotations ! i") (auto simp: or_ref_def)
qed

text \<open>A segmentation annotation paired with a 3D segmentation prediction, then a
  style-transfer prediction with no annotation; a third prediction is beyond the
  annotations. The first prediction is resized to the size resolved from its annotation.\<close>

theorem prediction_pass_resolution_witness:
  "fst (prediction_pass sample_prims sample_config [Some 0, None] [Some 1, Some 2, Some 3]
          sample_store) = None \<and>
   distinct (present [Some 1, Some 2, Some 3]) \<and>
   set (present [Some 0, None]) \<inter> set (present [Some 1, Some 2, Some 3]) = {} \<and>
   (\<exists>h w. resize_entry sample_prims (sample_store 1) h w =
            (None, snd (prediction_pass sample_prims sample_config [Some 0, None]
                          [Some 1, Some 2, Some 3] sample_store) 1) \<and>
          set_sizes sample_config (Some (sample_store 0)) = Inr [h, w])"
proof -
  let ?as = "[Some 0, None]" and ?ps = "[Some 1, Some 2, Some 3]"
  let ?s' = "snd (prediction_pass sample_prims sample_config ?as ?ps sample_store)"
  have f: "fst (prediction_pass sample_prims sample_config ?as ?ps sample_store) = None"
    by code_simp
  then have run: "prediction_pass sample_prims sample_config ?as ?ps sample_store = (None, ?s')"
    by (simp add: prod_eq_iff)
  have dist: "distinct (present ?ps)" by simp
  have sep: "set (present ?as) \<inter> set (present ?ps) = {}" by simp
  have i: "0 < length ?ps" "?ps ! 0 = Some 1" "?as = [] \<or> 0 < length ?as" by simp_all
  from prediction_pass_resolution[OF run dist sep i] f dist sep show ?thesis
    by simp
qed

text \<open>
  C8. In the annotation pass the \<^verbatim>\<open>None\<close> entries are skipped: the pass over a collection
  is the pass over its present entries, with the same exception, if any, and the same
  store; a collection of \<^verbatim>\<open>None\<close> only raises nothing and changes nothing. When the pass
  raises nothing and the present annotations are distinct objects, each of them ends as one
  \<^verbatim>\<open>resize\<close> of what it was, to the size \<^verbatim>\<open>set_sizes\<close> resolves from it.
\<close>

theorem annotation_pass_skips_none:
  "annotation_pass P cfg annotations s =
     annotation_pass P cfg (filter (\<lambda>a. a \<noteq> None) annotations) s \<and>
   (list_all (\<lambda>a. a = None) annotations \<longrightarrow> annotation_pass P cfg annotations s = (None, s)) \<and>
   (annotation_pass P cfg annotations s = (None, s') \<and> distinct (present annotations) \<and>
    Some a \<in> set annotations \<longrightarrow>
      (\<exists>h w. set_sizes cfg (Some (s a)) = Inr [h, w] \<and>
             resize_entry P (s a) h w = (None, s' a)))"
proof (intro conjI impI)
  show "annotation_pass P cfg annotations s =
     annotation_pass P cfg (filter (\<lambda>a. a \<noteq> None) annotations) s"
    by (simp add: annotation_as_paired)
next
  assume "list_all (\<lambda>a. a = None) annotations"
  then have "filter (\<lambda>a. a \<noteq> None) annotations = []"
    by (induction annotations) auto
  then show "annotation_pass P cfg annotations s = (None, s)"
    by (simp add: annotation_as_paired)
next
  assume h: "annotation_pass P cfg annotations s = (None, s') \<and>
    distinct (present annotations) \<and> Some a \<in> set annotations"
  let ?ps = "map (\<lambda>a. (a, a)) (filter (\<lambda>a. a \<noteq> None) annotations)"
  from h have r: "paired_pass P cfg ?ps s = (None, s')"
    by (simp add: annotation_as_paired)
  have snd: "map snd ?ps = filter (\<lambda>a. a \<noteq> None) annotations"
    by (simp add: comp_def)
  have "present (filter (\<lambda>a. a \<noteq> None) annotations) = present annotations"
    by (simp add: present_def)
  with h snd have d: "distinct (present (map snd ?ps))" by simp
  have al: "\<forall>(a', p') \<in> set ?ps. \<forall>x. a' = Some x \<and> x \<in> set (present (map snd ?ps))
              \<longrightarrow> p' = Some x"
    by auto
  from h have "(Some a, Some a) \<in> set ?ps" by auto
  then obtain i where n: "i < length ?ps" "?ps ! i = (Some a, Some a)"
    unfolding in_set_conv_nth by blast
  from paired_pass_result[OF r d al n]
  show "\<exists>h w. set_sizes cfg (Some (s a)) = Inr [h, w] \<and>
          resize_entry P (s a) h w = (None, s' a)"
    by (simp add: or_ref_def)
qed

text \<open>A \<^verbatim>\<open>None\<close> and a segmentation annotation: the pass raises nothing and the annotation
  is resized by the default rule, to the frame (3 by 4).\<close>

theorem annotation_pass_skips_none_witness:
  "fst (annotation_pass sample_prims sample_config [None, Some 0] sample_store) = None \<and>
   annotation_pass sample_prims sample_config [None, None] sample_store = (None, sample_store) \<and>
   set_sizes sample_config (Some (sample_store 0)) = Inr [3, 4] \<and>
   resize_entry sample_prims (sample_store 0) 3 4 =
     (None, snd (annotation_pass sample_prims sample_config [None, Some 0] sample_store) 0)"
proof -
  let ?s' = "snd (annotation_pass sample_prims sample_config [None, Some 0] sample_store)"
  have f: "fst (annotation_pass sample_prims sample_config [None, Some 0] sample_store) = None"
    by code_simp
  then have run: "annotation_pass sample_prims sample_config [None, Some 0] sample_store
      = (None, ?s')"
    by (simp add: prod_eq_iff)
  have sz: "set_sizes sample_config (Some (sample_store 0)) = Inr [3, 4]"
    by code_simp
  from annotation_pass_skips_none[of sample_prims sample_config "[None, Some 0]"
      sample_store ?s' 0] run sz
  have "resize_entry sample_prims (sample_store 0) 3 4 = (None, ?s' 0)"
    by simp
  moreover
  from annotation_pass_skips_none[of sample_prims sample_config "[None, None]" sample_store]
  have "annotation_pass sample_prims sample_config [None, None] sample_store
      = (None, sample_store)"
    by simp
  ultimately show ?thesis using f sz by simp
qed

text \<open>
  C10. When \<^verbatim>\<open>apply_to\<close> is PREDICTION and no annotation object is also a prediction,
  \<^verbatim>\<open>process_image\<close> leaves every annotation as it was, whether it raises or not.
\<close>

theorem process_image_keeps_annotations:
  assumes "apply_to cfg = Some PREDICTION"
    and "set (present annotations) \<inter> set (present predictions) = {}"
    and "process_image P cfg annotations predictions s = (r, s')"
    and "Some a \<in> set annotations"
  shows "s' a = s a"
proof -
  from assms(1) have "prediction_gate cfg" "\<not> annotation_gate cfg"
    by (simp_all add: prediction_gate_def annotation_gate_def)
  with assms(3) have "prediction_pass P cfg annotations predictions s = (r, s')"
    by (auto simp: process_image_def split: prod.splits option.splits)
  moreover from assms(2,4) have "a \<notin> set (present predictions)"
    by (auto simp: set_present)
  ultimately show ?thesis by (rule prediction_pass_frame)
qed

text \<open>The annotation is read to resolve the size of the prediction, which is resized; the
  annotation itself is as before.\<close>

theorem process_image_keeps_annotations_witness:
  "apply_to deprocess_config = Some PREDICTION \<and>
   set (present [Some 0]) \<inter> set (present [Some 1]) = {} \<and>
   snd (process_image sample_prims deprocess_config [Some 0] [Some 1] sample_store) 0
     = sample_store 0 \<and>
   snd (process_image sample_prims deprocess_config [Some 0] [Some 1] sample_store) 1
     \<noteq> sample_store 1"
proof -
  have h: "apply_to deprocess_config = Some PREDICTION"
    "set (present [Some 0]) \<inter> set (present [Some 1]) = {}"
    by (simp_all add: deprocess_config_def)
  have changed:
    "snd (process_image sample_prims deprocess_config [Some 0] [Some 1] sample_store) 1
       \<noteq> sample_store 1"
    by code_simp
  from process_image_keeps_annotations[OF h, of sample_prims sample_store
      "fst (process_image sample_prims deprocess_config [Some 0] [Some 1] sample_store)"
      "snd (process_image sample_prims deprocess_config [Some 0] [Some 1] sample_store)" 0]
    h changed
  show ?thesis by simp
qed

text \<open>
  C6, as stated, fails in its last part: the two gates are never both closed, since each of
  the four values of \<^verbatim>\<open>apply_to\<close> opens at least one of them.
\<close>

theorem gates_never_both_closed:
  "\<not> (\<exists>cfg. \<not> prediction_gate cfg \<and> \<not> annotation_gate cfg)"
proof
  assume "\<exists>cfg. \<not> prediction_gate cfg \<and> \<not> annotation_gate cfg"
  then obtain cfg where c: "\<not> prediction_gate cfg" "\<not> annotation_gate cfg" by blast
  show False
  proof (cases "apply_to cfg")
    case None
    with c show False by (simp add: prediction_gate_def)
  next
    case (Some t)
    with c show False by (cases t) (simp_all add: prediction_gate_def annotation_gate_def)
  qed
qed

text \<open>
  C6, amended. The prediction pass runs if and only if \<^verbatim>\<open>apply_to\<close> is unset, PREDICTION
  or ALL, and the annotation pass (unless the prediction pass raised) if and only if
  \<^verbatim>\<open>apply_to\<close> is unset, ANNOTATION or ALL. The two tests are separate: PREDICTION runs the
  prediction pass alone, ANNOTATION the annotation pass alone, unset and ALL run both, and
  no value runs neither.
\<close>

theorem process_image_gating:
  "(prediction_gate cfg \<longleftrightarrow> apply_to cfg \<in> {None, Some PREDICTION, Some ALL'}) \<and>
   (annotation_gate cfg \<longleftrightarrow> apply_to cfg \<in> {None, Some ANNOTATION, Some ALL'}) \<and>
   (prediction_gate cfg \<or> annotation_gate cfg) \<and>
   process_image P cfg annotations predictions s =
     (case apply_to cfg of
        Some PREDICTION \<Rightarrow> prediction_pass P cfg annotations predictions s
      | Some ANNOTATION \<Rightarrow> annotation_pass P cfg annotations s
      | _ \<Rightarrow>
          (case prediction_pass P cfg annotations predictions s of
             (Some e, s1) \<Rightarrow> (Some e, s1)
           | (None, s1) \<Rightarrow> annotation_pass P cfg annotations s1))"
proof (cases "apply_to cfg")
  case None
  then show ?thesis
    by (auto simp: prediction_gate_def annotation_gate_def process_image_def
        split: prod.splits option.splits)
next
  case (Some t)
  then show ?thesis
    by (cases t)
       (auto simp: prediction_gate_def annotation_gate_def process_image_def
          split: prod.splits option.splits)
qed

text \<open>With PREDICTION the whole call is the prediction pass; with ANNOTATION it is the
  annotation pass.\<close>

theorem process_image_gating_witness:
  "prediction_gate deprocess_config \<and> \<not> annotation_gate deprocess_config \<and>
   process_image sample_prims deprocess_config [Some 0] [Some 1] sample_store =
     prediction_pass sample_prims deprocess_config [Some 0] [Some 1] sample_store \<and>
   \<not> prediction_gate (sample_config\<lparr>apply_to := Some ANNOTATION\<rparr>) \<and>
   annotation_gate (sample_config\<lparr>apply_to := Some ANNOTATION\<rparr>) \<and>
   process_image sample_prims (sample_config\<lparr>apply_to := Some ANNOTATION\<rparr>) [Some 0] [Some 1]
       sample_store =
     annotation_pass sample_prims (sample_config\<lparr>apply_to := Some ANNOTATION\<rparr>) [Some 0]
       sample_store"
  using process_image_gating[of deprocess_config sample_prims "[Some 0]" "[Some 1]" sample_store]
    process_image_gating[of "sample_config\<lparr>apply_to := Some ANNOTATION\<rparr>" sample_prims
      "[Some 0]" "[Some 1]" sample_store]
  by (simp add: deprocess_config_def sample_config_def)

end
